theory Spec2Isabelle
  imports Main "HOL-Library.Char_ord"
begin

section \<open>The gosql lexer (lexer.go)\<close>

text \<open>
  A shallow embedding of \<^verbatim>\<open>lexer.go\<close>: of its complete version, the one with
  \<^verbatim>\<open>lex\<close> and \<^verbatim>\<open>lexIdentifier\<close> and the exported names; the earlier drafts kept
  after it repeat \<^verbatim>\<open>lexNumeric\<close>, \<^verbatim>\<open>lexCharacterDelimited\<close>, \<^verbatim>\<open>longestMatch\<close>
  and \<^verbatim>\<open>lexSymbol\<close> unchanged. A Go \<^verbatim>\<open>string\<close> is a sequence of bytes, here a
  \<open>string\<close> (a list of 8-bit \<open>char\<close>s); \<^verbatim>\<open>source[i]\<close> is \<open>source ! i\<close> and is only read
  under the bound check the source makes, or reported as a panic.

  The fields \<^verbatim>\<open>pointer\<close>, \<^verbatim>\<open>Line\<close> and \<^verbatim>\<open>Col\<close> are Go \<^verbatim>\<open>uint\<close>s (64 bit). They are
  modelled as \<open>nat\<close>. Every sub-lexer adds to the column at most twice for each byte it
  moves the pointer over (part of \<open>accepted_step\<close> below), and the pointer of
  \<^verbatim>\<open>lex\<close> stops at the end of the source or at most a keyword's length after it; a Go
  string is shorter than \<open>2 ^ 63\<close> bytes, so no counter of a run of \<^verbatim>\<open>lex\<close> wraps
  around (\<open>token_locations_bounded\<close> below, for the locations in the output). The
  one subtraction on them, \<^verbatim>\<open>uint(len(source))-1\<close>, is made inside a loop that has
  checked \<^verbatim>\<open>cur.pointer < uint(len(source))\<close>.
\<close>

subsection \<open>Data model\<close>

record Location =
  Line :: nat
  Col :: nat

datatype TokenKind = KeywordKind | SymbolKind | IdentifierKind | StringKind | NumericKind

record Token =
  Value :: string
  Kind :: TokenKind
  Loc :: Location

record cursor =
  pointer :: nat
  loc :: Location

text \<open>
  \<open>UnableToLex hint line col\<close> is the error value \<^verbatim>\<open>lex\<close> returns,
  \<^verbatim>\<open>fmt.Errorf("Unable to lex token%s, at %d:%d", hint, cur.loc.Line, cur.loc.Col)\<close>,
  kept as its three arguments. The other two are Go's run-time panics for an index and
  for a slice bound out of range.
\<close>

datatype error = UnableToLex string nat nat | IndexOutOfRange | SliceBoundsOutOfRange

text \<open>The keyword and symbol constants.\<close>

definition SelectKeyword :: string where "SelectKeyword = ''select''"
definition FromKeyword :: string where "FromKeyword = ''from''"
definition AsKeyword :: string where "AsKeyword = ''as''"
definition TableKeyword :: string where "TableKeyword = ''table''"
definition CreateKeyword :: string where "CreateKeyword = ''create''"
definition InsertKeyword :: string where "InsertKeyword = ''insert''"
definition IntoKeyword :: string where "IntoKeyword = ''into''"
definition ValuesKeyword :: string where "ValuesKeyword = ''values''"
definition IntKeyword :: string where "IntKeyword = ''int''"
definition TextKeyword :: string where "TextKeyword = ''text''"
definition WhereKeyword :: string where "WhereKeyword = ''where''"

definition SemiColonSymbol :: string where "SemiColonSymbol = '';''"
definition AsteriskSymbol :: string where "AsteriskSymbol = ''*''"
definition CommaSymbol :: string where "CommaSymbol = '',''"
definition LeftparenSymbol :: string where "LeftparenSymbol = ''(''"
definition RightparenSymbol :: string where "RightparenSymbol = '')''"

text \<open>\<^verbatim>\<open>cur.loc.Col++\<close> and \<^verbatim>\<open>cur.pointer++\<close> on a cursor held by value.\<close>

definition incCol :: "cursor \<Rightarrow> cursor" where
  "incCol cur = cur\<lparr>loc := (loc cur)\<lparr>Col := Col (loc cur) + 1\<rparr>\<rparr>"

definition incPointer :: "cursor \<Rightarrow> cursor" where
  "incPointer cur = cur\<lparr>pointer := pointer cur + 1\<rparr>"

subsection \<open>Character classes and case folding\<close>

definition isDigit :: "char \<Rightarrow> bool" where
  "isDigit c = (CHR ''0'' \<le> c \<and> c \<le> CHR ''9'')"

definition isAlpha :: "char \<Rightarrow> bool" where
  "isAlpha c = ((CHR ''A'' \<le> c \<and> c \<le> CHR ''Z'') \<or> (CHR ''a'' \<le> c \<and> c \<le> CHR ''z''))"

text \<open>
  \<^verbatim>\<open>strings.ToLower(string(source[cur.pointer]))\<close>, as bytes. The conversion
  \<^verbatim>\<open>string(b)\<close> of a byte \<open>b\<close> is the UTF-8 encoding of the code point \<open>b\<close>: one byte
  below 128, two bytes from 128 on. \<^verbatim>\<open>ToLower\<close> maps \<open>A\<close> to \<open>Z\<close> and, in Latin-1, the
  code points 192 to 222 except 215, to the code point 32 above.
\<close>

definition toLowerByte :: "char \<Rightarrow> string" where
  "toLowerByte c =
     (let n = (of_char c :: nat) in
      if 65 \<le> n \<and> n \<le> 90 then [char_of (n + 32)]
      else if n < 128 then [c]
      else
        let cp = (if 192 \<le> n \<and> n \<le> 222 \<and> n \<noteq> 215 then n + 32 else n)
        in [char_of (192 + cp div 64), char_of (128 + cp mod 64)])"

text \<open>
  \<^verbatim>\<open>strings.ToLower\<close> on a string of ASCII bytes (the only strings \<^verbatim>\<open>lexIdentifier\<close>
  gives it: letters, digits, \<open>$\<close> and \<open>_\<close>) folds \<open>A\<close> to \<open>Z\<close> byte by byte.
\<close>

definition toLowerASCII :: "string \<Rightarrow> string" where
  "toLowerASCII s =
     map (\<lambda>c. if CHR ''A'' \<le> c \<and> c \<le> CHR ''Z'' then char_of (of_char c + (32::nat)) else c) s"

subsection \<open>longestMatch\<close>

text \<open>
  One pass of the inner loop \<^verbatim>\<open>for i, option := range options\<close>, over the options
  paired with their indices. \<open>n\<close> is \<^verbatim>\<open>cur.pointer - ic.pointer\<close>; the slice
  \<^verbatim>\<open>option[:n]\<close> panics when \<open>n\<close> is beyond the length of the option. \<^verbatim>\<open>tooLong\<close>
  compares with \<^verbatim>\<open>len(options)\<close>, the number of options, as the source does.
\<close>

fun matchOptions ::
  "string list \<Rightarrow> string \<Rightarrow> nat \<Rightarrow> (nat \<times> string) list \<Rightarrow> nat list \<Rightarrow> string
     \<Rightarrow> error + (nat list \<times> string)" where
  "matchOptions options val n [] skipList match = Inr (skipList, match)"
| "matchOptions options val n ((i, option) # rest) skipList match =
     (if i \<in> set skipList then matchOptions options val n rest skipList match
      else if option = val then
        matchOptions options val n rest (skipList @ [i])
          (if length option > length match then option else match)
      else if length option < n then Inl SliceBoundsOutOfRange
      else
        let sharePrefix = (val = take n option);
            tooLong = (length val > length options)
        in if tooLong \<or> \<not> sharePrefix
           then matchOptions options val n rest (skipList @ [i]) match
           else matchOptions options val n rest skipList match)"

function longestMatchLoop ::
  "string \<Rightarrow> string list \<Rightarrow> nat \<Rightarrow> nat \<Rightarrow> string \<Rightarrow> nat list \<Rightarrow> string \<Rightarrow> error + string" where
  "longestMatchLoop source options icp p val skipList match =
     (if p < length source then
        (case matchOptions options (val @ toLowerByte (source ! p)) (p + 1 - icp)
                (enumerate 0 options) skipList match of
           Inl e \<Rightarrow> Inl e
         | Inr (skipList', match') \<Rightarrow>
             if length skipList' = length options then Inr match'
             else longestMatchLoop source options icp (p + 1)
                    (val @ toLowerByte (source ! p)) skipList' match')
      else Inr match)"
  by pat_completeness auto
termination
  by (relation "measure (\<lambda>(source, options, icp, p, val, skipList, match). length source - p)") auto

definition longestMatch :: "string \<Rightarrow> cursor \<Rightarrow> string list \<Rightarrow> error + string" where
  "longestMatch source ic options =
     longestMatchLoop source options (pointer ic) (pointer ic) [] [] []"

subsection \<open>lexKeyword and lexSymbol\<close>

text \<open>The result of a sub-lexer, \<^verbatim>\<open>(*Token, cursor, bool)\<close>; a nil token is \<open>None\<close>.\<close>

type_synonym lexed = "Token option \<times> cursor \<times> bool"

text \<open>
  The list \<^verbatim>\<open>keywords\<close> built in \<^verbatim>\<open>lexKeyword\<close>, in the order of the source
  (\<open>keywords\<close> is a reserved word of Isabelle, hence \<open>keywordList\<close>).
\<close>

definition keywordList :: "string list" where
  "keywordList =
     [SelectKeyword, InsertKeyword, ValuesKeyword, TableKeyword, CreateKeyword,
      WhereKeyword, FromKeyword, IntoKeyword, TextKeyword, IntKeyword]"

definition lexKeyword :: "string \<Rightarrow> cursor \<Rightarrow> error + lexed" where
  "lexKeyword source ic =
     (case longestMatch source ic keywordList of
        Inl e \<Rightarrow> Inl e
      | Inr match \<Rightarrow>
          if match = [] then Inr (None, ic, False)
          else Inr (Some \<lparr>Value = match, Kind = KeywordKind, Loc = loc ic\<rparr>,
                    ic\<lparr>pointer := pointer ic + length match,
                       loc := (loc ic)\<lparr>Col := Col (loc ic) + length match\<rparr>\<rparr>,
                    True))"

definition symbols :: "string list" where
  "symbols =
     [SemiColonSymbol, AsteriskSymbol, CommaSymbol, LeftparenSymbol, RightparenSymbol]"

text \<open>
  \<^verbatim>\<open>lexSymbol\<close> reads \<^verbatim>\<open>source[cur.pointer]\<close> with no bound check: an index panic when
  the pointer is at or past the end. A newline is the byte 10, a tab the byte 9.
\<close>

definition lexSymbol :: "string \<Rightarrow> cursor \<Rightarrow> error + lexed" where
  "lexSymbol source ic =
     (if length source \<le> pointer ic then Inl IndexOutOfRange
      else
        let c = source ! pointer ic;
            cur = incPointer (incCol ic)
        in if c = CHR 0x0A then
             Inr (None, cur\<lparr>loc := \<lparr>Line = Line (loc cur) + 1, Col = 0\<rparr>\<rparr>, True)
           else if c = CHR 0x09 \<or> c = CHR '' '' then Inr (None, cur, True)
           else
             (case longestMatch source ic symbols of
                Inl e \<Rightarrow> Inl e
              | Inr match \<Rightarrow>
                  if match = [] then Inr (None, ic, False)
                  else Inr (Some \<lparr>Value = match, Kind = SymbolKind, Loc = loc ic\<rparr>,
                            cur\<lparr>pointer := pointer ic + length match,
                                loc := (loc cur)\<lparr>Col := Col (loc ic) + length match\<rparr>\<rparr>,
                            True)))"

subsection \<open>lexNumeric\<close>

text \<open>
  The loop of \<^verbatim>\<open>lexNumeric\<close>. \<open>None\<close> is one of its \<^verbatim>\<open>return nil, ic, false\<close>;
  \<open>Some cur\<close> is the cursor at which the loop ends, by \<^verbatim>\<open>break\<close> or by its condition.
  The column is incremented at the head of every iteration, also of the one that
  breaks. The branch for a period does not assign \<^verbatim>\<open>periodFound\<close>.
\<close>

function lexNumericLoop :: "string \<Rightarrow> cursor \<Rightarrow> cursor \<Rightarrow> bool \<Rightarrow> bool \<Rightarrow> cursor option" where
  "lexNumericLoop source ic cur0 periodFound expMarkerFound =
     (if pointer cur0 < length source then
        let c = source ! pointer cur0;
            cur = incCol cur0;
            isPeriod = (c = CHR ''.'');
            isExpMarker = (c = CHR ''e'')
        in if pointer cur = pointer ic then
             (if \<not> isDigit c \<and> \<not> isPeriod then None
              else lexNumericLoop source ic (incPointer cur) isPeriod expMarkerFound)
           else if isPeriod then
             (if periodFound then None
              else lexNumericLoop source ic (incPointer cur) periodFound expMarkerFound)
           else if isExpMarker then
             (if expMarkerFound then None
              else if pointer cur = length source - 1 then None
              else
                let cNext = source ! (pointer cur + 1)
                in if cNext = CHR ''-'' \<or> cNext = CHR ''+''
                   then lexNumericLoop source ic (incPointer (incCol (incPointer cur))) True True
                   else lexNumericLoop source ic (incPointer cur) True True)
           else if \<not> isDigit c then Some cur
           else lexNumericLoop source ic (incPointer cur) periodFound expMarkerFound
      else Some cur0)"
  by pat_completeness auto
termination
  by (relation "measure (\<lambda>(source, ic, cur0, periodFound, expMarkerFound).
                  length source - pointer cur0)")
     (auto simp: incCol_def incPointer_def)

text \<open>
  The slice \<^verbatim>\<open>source[ic.pointer:cur.pointer]\<close> panics when its bounds are out of order
  or past the end of the source.
\<close>

definition lexNumeric :: "string \<Rightarrow> cursor \<Rightarrow> error + lexed" where
  "lexNumeric source ic =
     (case lexNumericLoop source ic ic False False of
        None \<Rightarrow> Inr (None, ic, False)
      | Some cur \<Rightarrow>
          if pointer cur = pointer ic then Inr (None, ic, False)
          else if pointer cur < pointer ic \<or> length source < pointer cur
          then Inl SliceBoundsOutOfRange
          else Inr (Some \<lparr>Value = take (pointer cur - pointer ic) (drop (pointer ic) source),
                          Kind = NumericKind, Loc = loc ic\<rparr>,
                    cur, True))"

subsection \<open>lexCharacterDelimited, lexString and lexIdentifier\<close>

text \<open>
  The loop of \<^verbatim>\<open>lexCharacterDelimited\<close>. \<open>Some (value, cur)\<close> is the return inside the
  loop, at a delimiter that no second delimiter follows: \<open>cur\<close> still points at that
  delimiter. \<open>None\<close> is the end of the source. At a doubled delimiter the branch
  appends the delimiter and steps over it, and the statements after the \<^verbatim>\<open>if\<close> then
  append \<open>c\<close> (the delimiter again) and step once more.
\<close>

function lexCharacterDelimitedLoop ::
  "string \<Rightarrow> char \<Rightarrow> cursor \<Rightarrow> string \<Rightarrow> (string \<times> cursor) option" where
  "lexCharacterDelimitedLoop source delimiter cur val =
     (if pointer cur < length source then
        let c = source ! pointer cur
        in if c = delimiter then
             (if length source \<le> pointer cur + 1 \<or> source ! (pointer cur + 1) \<noteq> delimiter
              then Some (val, cur)
              else lexCharacterDelimitedLoop source delimiter
                     (incPointer (incCol (incCol (incPointer cur))))
                     ((val @ [delimiter]) @ [c]))
           else lexCharacterDelimitedLoop source delimiter (incPointer (incCol cur)) (val @ [c])
      else None)"
  by pat_completeness auto
termination
  by (relation "measure (\<lambda>(source, delimiter, cur, val). length source - pointer cur)")
     (auto simp: incCol_def incPointer_def)

text \<open>The slice \<^verbatim>\<open>source[cur.pointer:]\<close> panics when the pointer is past the end.\<close>

definition lexCharacterDelimited :: "string \<Rightarrow> cursor \<Rightarrow> char \<Rightarrow> error + lexed" where
  "lexCharacterDelimited source ic delimiter =
     (if length source < pointer ic then Inl SliceBoundsOutOfRange
      else if length (drop (pointer ic) source) = 0 then Inr (None, ic, False)
      else if source ! pointer ic \<noteq> delimiter then Inr (None, ic, False)
      else
        (case lexCharacterDelimitedLoop source delimiter (incPointer (incCol ic)) [] of
           None \<Rightarrow> Inr (None, ic, False)
         | Some (val, cur) \<Rightarrow>
             Inr (Some \<lparr>Value = val, Kind = StringKind, Loc = loc ic\<rparr>, cur, True)))"

definition lexString :: "string \<Rightarrow> cursor \<Rightarrow> error + lexed" where
  "lexString source ic = lexCharacterDelimited source ic (CHR 0x27)"

function lexIdentifierLoop :: "string \<Rightarrow> cursor \<Rightarrow> string \<Rightarrow> string \<times> cursor" where
  "lexIdentifierLoop source cur val =
     (if pointer cur < length source then
        let c = source ! pointer cur
        in if isAlpha c \<or> isDigit c \<or> c = CHR ''$'' \<or> c = CHR ''_''
           then lexIdentifierLoop source (incPointer (incCol cur)) (val @ [c])
           else (val, cur)
      else (val, cur))"
  by pat_completeness auto
termination
  by (relation "measure (\<lambda>(source, cur, val). length source - pointer cur)")
     (auto simp: incCol_def incPointer_def)

text \<open>
  \<^verbatim>\<open>lexIdentifier\<close> returns the token of \<^verbatim>\<open>lexCharacterDelimited\<close> as it is. After a
  failed delegation it reads \<^verbatim>\<open>source[cur.pointer]\<close> with no bound check.
\<close>

definition lexIdentifier :: "string \<Rightarrow> cursor \<Rightarrow> error + lexed" where
  "lexIdentifier source ic =
     (case lexCharacterDelimited source ic (CHR 0x22) of
        Inl e \<Rightarrow> Inl e
      | Inr (token, newCursor, ok) \<Rightarrow>
          if ok then Inr (token, newCursor, True)
          else if length source \<le> pointer ic then Inl IndexOutOfRange
          else
            let c = source ! pointer ic
            in if \<not> isAlpha c then Inr (None, ic, False)
               else
                 (case lexIdentifierLoop source (incCol (incPointer ic)) [c] of
                    (val, cur) \<Rightarrow>
                      if length val = 0 then Inr (None, ic, False)
                      else Inr (Some \<lparr>Value = toLowerASCII val, Kind = IdentifierKind,
                                      Loc = loc ic\<rparr>,
                                cur, True)))"

subsection \<open>The sub-lexers move the cursor forward\<close>

text \<open>
  Facts about the scanning loops that the orchestrator's termination rests on: a loop
  only moves the pointer forward, leaves the line alone and never lowers the column.
\<close>

lemma pointer_incCol [simp]: "pointer (incCol cur) = pointer cur"
  by (simp add: incCol_def)

lemma pointer_incPointer [simp]: "pointer (incPointer cur) = pointer cur + 1"
  by (simp add: incPointer_def)

lemma loc_incPointer [simp]: "loc (incPointer cur) = loc cur"
  by (simp add: incPointer_def)

lemma Line_incCol [simp]: "Line (loc (incCol cur)) = Line (loc cur)"
  by (simp add: incCol_def)

lemma Col_incCol [simp]: "Col (loc (incCol cur)) = Col (loc cur) + 1"
  by (simp add: incCol_def)

declare longestMatchLoop.simps [simp del]
declare lexNumericLoop.simps [simp del]
declare lexCharacterDelimitedLoop.simps [simp del]
declare lexIdentifierLoop.simps [simp del]

lemma lexNumericLoop_mono:
  "lexNumericLoop source ic cur0 periodFound expMarkerFound = Some cur \<Longrightarrow>
     pointer cur0 \<le> pointer cur \<and> Line (loc cur) = Line (loc cur0) \<and>
     Col (loc cur0) \<le> Col (loc cur) \<and>
     Col (loc cur) + pointer cur0 \<le> Col (loc cur0) + pointer cur + 1"
proof (induction "length source - pointer cur0" arbitrary: cur0 periodFound expMarkerFound
         rule: less_induct)
  case less
  have step: "pointer cur0 \<le> pointer cur \<and> Line (loc cur) = Line (loc cur0) \<and>
              Col (loc cur0) \<le> Col (loc cur) \<and>
              Col (loc cur) + pointer cur0 \<le> Col (loc cur0) + pointer cur + 1"
    if "lexNumericLoop source ic nxt pf ef = Some cur" "pointer cur0 < length source"
       "pointer cur0 < pointer nxt" "Line (loc nxt) = Line (loc cur0)"
       "Col (loc cur0) \<le> Col (loc nxt)"
       "Col (loc nxt) + pointer cur0 \<le> Col (loc cur0) + pointer nxt"
    for nxt pf ef
  proof -
    have "length source - pointer nxt < length source - pointer cur0"
      using that by linarith
    from less.hyps [OF this that(1)] that show ?thesis by simp
  qed
  from less.prems show ?case
    apply (subst (asm) lexNumericLoop.simps)
    apply (simp add: Let_def split: if_splits)
    apply (auto dest!: step)
    done
qed

lemma lexCharacterDelimitedLoop_mono:
  "lexCharacterDelimitedLoop source delimiter cur0 val = Some (val', cur) \<Longrightarrow>
     pointer cur0 \<le> pointer cur \<and> Line (loc cur) = Line (loc cur0) \<and>
     Col (loc cur0) \<le> Col (loc cur) \<and>
     Col (loc cur) + pointer cur0 \<le> Col (loc cur0) + pointer cur"
proof (induction "length source - pointer cur0" arbitrary: cur0 val rule: less_induct)
  case less
  have step: "pointer cur0 \<le> pointer cur \<and> Line (loc cur) = Line (loc cur0) \<and>
              Col (loc cur0) \<le> Col (loc cur) \<and>
              Col (loc cur) + pointer cur0 \<le> Col (loc cur0) + pointer cur"
    if "lexCharacterDelimitedLoop source d nxt v = Some (val', cur)" "d = delimiter"
       "pointer cur0 < length source" "pointer cur0 < pointer nxt"
       "Line (loc nxt) = Line (loc cur0)" "Col (loc cur0) \<le> Col (loc nxt)"
       "Col (loc nxt) + pointer cur0 \<le> Col (loc cur0) + pointer nxt"
    for d nxt v
  proof -
    have "length source - pointer nxt < length source - pointer cur0"
      using that by linarith
    from less.hyps [OF this, of v] that show ?thesis by simp
  qed
  from less.prems show ?case
    apply (subst (asm) lexCharacterDelimitedLoop.simps)
    apply (simp add: Let_def split: if_splits)
    apply (auto dest!: step)
    done
qed

lemma lexIdentifierLoop_mono:
  "lexIdentifierLoop source cur0 val = (val', cur) \<Longrightarrow>
     pointer cur0 \<le> pointer cur \<and> Line (loc cur) = Line (loc cur0) \<and>
     Col (loc cur0) \<le> Col (loc cur) \<and>
     Col (loc cur) + pointer cur0 \<le> Col (loc cur0) + pointer cur"
proof (induction "length source - pointer cur0" arbitrary: cur0 val rule: less_induct)
  case less
  have step: "pointer cur0 \<le> pointer cur \<and> Line (loc cur) = Line (loc cur0) \<and>
              Col (loc cur0) \<le> Col (loc cur) \<and>
              Col (loc cur) + pointer cur0 \<le> Col (loc cur0) + pointer cur"
    if "lexIdentifierLoop source nxt v = (val', cur)"
       "pointer cur0 < length source" "pointer cur0 < pointer nxt"
       "Line (loc nxt) = Line (loc cur0)" "Col (loc cur0) \<le> Col (loc nxt)"
       "Col (loc nxt) + pointer cur0 \<le> Col (loc cur0) + pointer nxt"
    for nxt v
  proof -
    have "length source - pointer nxt < length source - pointer cur0"
      using that by linarith
    from less.hyps [OF this that(1)] that show ?thesis by simp
  qed
  from less.prems show ?case
    apply (subst (asm) lexIdentifierLoop.simps)
    apply (simp add: Let_def split: if_splits)
    apply (auto dest!: step)
    done
qed

text \<open>
  The order on locations that the cursor follows: a later line, or the same line and a
  column that is not smaller.
\<close>

definition loc_le :: "Location \<Rightarrow> Location \<Rightarrow> bool" where
  "loc_le a b = (Line a < Line b \<or> (Line a = Line b \<and> Col a \<le> Col b))"

lemma loc_le_refl [simp]: "loc_le a a"
  by (simp add: loc_le_def)

lemma loc_le_trans: "loc_le a b \<Longrightarrow> loc_le b c \<Longrightarrow> loc_le a c"
  by (auto simp: loc_le_def)

text \<open>
  What an accepting sub-lexer returns: a cursor strictly further in the source, at a
  location not before the one it started from, with a line that has grown by at most
  the bytes passed and a column by at most twice as much, and a token (if any) stamped
  with the location it started from.
\<close>

definition accepted_step :: "cursor \<Rightarrow> Token option \<Rightarrow> cursor \<Rightarrow> bool" where
  "accepted_step ic tok cur =
     (pointer ic < pointer cur \<and> loc_le (loc ic) (loc cur) \<and>
      Line (loc cur) + pointer ic \<le> Line (loc ic) + pointer cur \<and>
      Col (loc cur) + 2 * pointer ic \<le> Col (loc ic) + 2 * pointer cur \<and>
      (case tok of None \<Rightarrow> True | Some t \<Rightarrow> Loc t = loc ic))"

lemma lexKeyword_accepted:
  "lexKeyword source ic = Inr (tok, cur, True) \<Longrightarrow> accepted_step ic tok cur"
  by (auto simp: lexKeyword_def accepted_step_def loc_le_def split: sum.splits if_splits)

lemma lexSymbol_accepted:
  "lexSymbol source ic = Inr (tok, cur, True) \<Longrightarrow> accepted_step ic tok cur"
  by (auto simp: lexSymbol_def accepted_step_def loc_le_def Let_def
           split: sum.splits if_splits)

lemma lexNumeric_accepted:
  "lexNumeric source ic = Inr (tok, cur, True) \<Longrightarrow> accepted_step ic tok cur"
  by (auto simp: lexNumeric_def accepted_step_def loc_le_def
           split: option.splits if_splits dest!: lexNumericLoop_mono)

lemma lexCharacterDelimited_accepted:
  "lexCharacterDelimited source ic delimiter = Inr (tok, cur, True) \<Longrightarrow>
     accepted_step ic tok cur"
  by (auto simp: lexCharacterDelimited_def accepted_step_def loc_le_def
           split: option.splits if_splits dest!: lexCharacterDelimitedLoop_mono)

lemma lexIdentifier_accepted:
  "lexIdentifier source ic = Inr (tok, cur, True) \<Longrightarrow> accepted_step ic tok cur"
proof (cases "lexCharacterDelimited source ic (CHR 0x22)")
  case (Inl e)
  assume "lexIdentifier source ic = Inr (tok, cur, True)"
  with Inl show ?thesis by (simp add: lexIdentifier_def)
next
  case (Inr r)
  assume a: "lexIdentifier source ic = Inr (tok, cur, True)"
  obtain token newCursor ok where r: "r = (token, newCursor, ok)"
    by (cases r) auto
  show ?thesis
  proof (cases ok)
    case True
    with a Inr r have "lexCharacterDelimited source ic (CHR 0x22) = Inr (tok, cur, True)"
      by (simp add: lexIdentifier_def)
    then show ?thesis by (rule lexCharacterDelimited_accepted)
  next
    case False
    with a Inr r show ?thesis
      by (auto simp: lexIdentifier_def accepted_step_def loc_le_def Let_def
               split: if_splits prod.splits dest!: lexIdentifierLoop_mono)
  qed
qed

subsection \<open>lex\<close>

definition lexers :: "(string \<Rightarrow> cursor \<Rightarrow> error + lexed) list" where
  "lexers = [lexKeyword, lexSymbol, lexNumeric, lexString, lexIdentifier]"

text \<open>
  The inner loop \<^verbatim>\<open>for _, l := range lexers\<close>: \<open>Some (token, newCursor)\<close> is the first
  acceptance (the \<^verbatim>\<open>continue lex\<close>), \<open>None\<close> is the fall through to the error.
\<close>

fun tryLexers ::
  "(string \<Rightarrow> cursor \<Rightarrow> error + lexed) list \<Rightarrow> string \<Rightarrow> cursor
     \<Rightarrow> error + (Token option \<times> cursor) option" where
  "tryLexers [] source cur = Inr None"
| "tryLexers (l # ls) source cur =
     (case l source cur of
        Inl e \<Rightarrow> Inl e
      | Inr (token, newCursor, ok) \<Rightarrow>
          if ok then Inr (Some (token, newCursor)) else tryLexers ls source cur)"

lemma tryLexers_accepted:
  "tryLexers ls source cur = Inr (Some (tok, cur')) \<Longrightarrow>
     \<exists>l \<in> set ls. l source cur = Inr (tok, cur', True)"
  by (induction ls) (auto split: sum.splits if_splits)

lemma lexers_accepted:
  "l \<in> set lexers \<Longrightarrow> l source ic = Inr (tok, cur, True) \<Longrightarrow> accepted_step ic tok cur"
  by (auto simp: lexers_def lexString_def
           intro: lexKeyword_accepted lexSymbol_accepted lexNumeric_accepted
                  lexCharacterDelimited_accepted lexIdentifier_accepted)

lemma tryLexers_lexers_accepted:
  "tryLexers lexers source cur = Inr (Some (tok, cur')) \<Longrightarrow> accepted_step cur tok cur'"
  by (blast dest: tryLexers_accepted lexers_accepted)

text \<open>
  The loop labelled \<^verbatim>\<open>lex\<close>. It is total: every acceptance moves the pointer forward.
\<close>

function lexLoop :: "string \<Rightarrow> cursor \<Rightarrow> Token list \<Rightarrow> error + Token list" where
  "lexLoop source cur tokens =
     (if pointer cur < length source then
        (case tryLexers lexers source cur of
           Inl e \<Rightarrow> Inl e
         | Inr (Some (token, newCursor)) \<Rightarrow>
             lexLoop source newCursor
               (case token of None \<Rightarrow> tokens | Some t \<Rightarrow> tokens @ [t])
         | Inr None \<Rightarrow>
             Inl (UnableToLex
                    (if length tokens > 0 then '' after '' @ Value (last tokens) else [])
                    (Line (loc cur)) (Col (loc cur))))
      else Inr tokens)"
  by pat_completeness auto
termination
proof (relation "measure (\<lambda>(source, cur, tokens). length source - pointer cur)")
  show "wf (measure (\<lambda>(source, cur, tokens). length source - pointer cur))"
    by simp
next
  fix source :: string and cur :: cursor and tokens :: "Token list"
    and b x2 token newCursor
  assume "pointer cur < length source"
    and "tryLexers lexers source cur = Inr b" and "b = Some x2" and "(token, newCursor) = x2"
  then have "accepted_step cur token newCursor"
    by (auto intro: tryLexers_lexers_accepted)
  with \<open>pointer cur < length source\<close>
  show "((source, newCursor, case token of None \<Rightarrow> tokens | Some t \<Rightarrow> tokens @ [t]),
         (source, cur, tokens))
        \<in> measure (\<lambda>(source, cur, tokens). length source - pointer cur)"
    by (auto simp: accepted_step_def)
qed

declare lexLoop.simps [simp del]

text \<open>
  The cursor \<^verbatim>\<open>cursor{}\<close> at which \<^verbatim>\<open>lex\<close> starts, and \<^verbatim>\<open>lex\<close> itself, here
  \<open>lexSource\<close> (\<open>lex\<close> is the lexicographic order of HOL's lists).
\<close>

definition cursor0 :: cursor where
  "cursor0 = \<lparr>pointer = 0, loc = \<lparr>Line = 0, Col = 0\<rparr>\<rparr>"

definition lexSource :: "string \<Rightarrow> error + Token list" where
  "lexSource source = lexLoop source cursor0 []"


subsection \<open>Invariants of the orchestrator\<close>

text \<open>
  The token locations stay sorted: every token of the accumulated sequence is stamped
  with a location not after the cursor's, and the cursor only moves on.
\<close>

lemma lexLoop_sorted:
  "lexLoop source cur tokens = Inr toks \<Longrightarrow>
   sorted_wrt loc_le (map Loc tokens) \<Longrightarrow>
   \<forall>t \<in> set tokens. loc_le (Loc t) (loc cur) \<Longrightarrow>
   sorted_wrt loc_le (map Loc toks)"
proof (induction source cur tokens rule: lexLoop.induct)
  case (1 source cur tokens)
  show ?case
  proof (cases "pointer cur < length source")
    case False
    with "1.prems" show ?thesis
      by (simp add: lexLoop.simps)
  next
    case True
    with "1.prems"(1) obtain token newCursor
      where accepted: "tryLexers lexers source cur = Inr (Some (token, newCursor))"
        and rec: "lexLoop source newCursor
                    (case token of None \<Rightarrow> tokens | Some t \<Rightarrow> tokens @ [t]) = Inr toks"
      by (subst (asm) lexLoop.simps) (auto split: sum.splits option.splits)
    from accepted have acc: "accepted_step cur token newCursor"
      by (rule tryLexers_lexers_accepted)
    then have le: "loc_le (loc cur) (loc newCursor)"
      by (simp add: accepted_step_def)
    let ?tokens = "case token of None \<Rightarrow> tokens | Some t \<Rightarrow> tokens @ [t]"
    have sorted: "sorted_wrt loc_le (map Loc ?tokens)"
      using "1.prems"(2,3) acc
      by (auto simp: accepted_step_def sorted_wrt_append split: option.splits)
    have below: "\<forall>t \<in> set ?tokens. loc_le (Loc t) (loc newCursor)"
      using "1.prems"(3) acc le
      by (auto simp: accepted_step_def split: option.splits intro: loc_le_trans)
    from "1.IH" [OF True accepted refl refl rec sorted below] show ?thesis .
  qed
qed

text \<open>
  The counters stay small: the line of a token is below the length of the source and
  its column below twice that length, far from \<open>2 ^ 64\<close>.
\<close>

lemma lexLoop_bounded:
  "lexLoop source cur tokens = Inr toks \<Longrightarrow>
   Line (loc cur) \<le> pointer cur \<Longrightarrow> Col (loc cur) \<le> 2 * pointer cur \<Longrightarrow>
   \<forall>t \<in> set tokens. Line (Loc t) < length source \<and> Col (Loc t) < 2 * length source \<Longrightarrow>
   \<forall>t \<in> set toks. Line (Loc t) < length source \<and> Col (Loc t) < 2 * length source"
proof (induction source cur tokens rule: lexLoop.induct)
  case (1 source cur tokens)
  show ?case
  proof (cases "pointer cur < length source")
    case False
    with "1.prems" show ?thesis
      by (simp add: lexLoop.simps)
  next
    case True
    with "1.prems"(1) obtain token newCursor
      where accepted: "tryLexers lexers source cur = Inr (Some (token, newCursor))"
        and rec: "lexLoop source newCursor
                    (case token of None \<Rightarrow> tokens | Some t \<Rightarrow> tokens @ [t]) = Inr toks"
      by (subst (asm) lexLoop.simps) (auto split: sum.splits option.splits)
    from accepted have acc: "accepted_step cur token newCursor"
      by (rule tryLexers_lexers_accepted)
    with "1.prems"(2,3) have line: "Line (loc newCursor) \<le> pointer newCursor"
      and col: "Col (loc newCursor) \<le> 2 * pointer newCursor"
      by (auto simp: accepted_step_def)
    let ?tokens = "case token of None \<Rightarrow> tokens | Some t \<Rightarrow> tokens @ [t]"
    have "\<forall>t \<in> set ?tokens. Line (Loc t) < length source \<and> Col (Loc t) < 2 * length source"
      using "1.prems"(2,3,4) acc True
      by (auto simp: accepted_step_def split: option.splits)
    from "1.IH" [OF True accepted refl refl rec line col this] show ?thesis .
  qed
qed

lemma token_locations_bounded:
  "lexSource source = Inr toks \<Longrightarrow> t \<in> set toks \<Longrightarrow>
     Line (Loc t) < length source \<and> Col (Loc t) < 2 * length source"
  using lexLoop_bounded [of source cursor0 "[]" toks]
  by (simp add: lexSource_def cursor0_def)

text \<open>
  At the opening delimiter of a literal that is never closed no sub-lexer accepts: no
  keyword and no symbol starts with a quote, a numeral does not either, the delimited
  scan runs to the end of the source, and a quote is no letter.
\<close>

lemma lexCharacterDelimitedLoop_unterminated:
  "delimiter \<notin> set (drop (pointer cur) source) \<Longrightarrow>
     lexCharacterDelimitedLoop source delimiter cur val = None"
proof (induction "length source - pointer cur" arbitrary: cur val rule: less_induct)
  case less
  show ?case
  proof (cases "pointer cur < length source")
    case False
    then show ?thesis
      by (subst lexCharacterDelimitedLoop.simps) simp
  next
    case True
    then have split: "drop (pointer cur) source =
                        source ! pointer cur # drop (Suc (pointer cur)) source"
      by (simp add: Cons_nth_drop_Suc)
    with less.prems have ne: "source ! pointer cur \<noteq> delimiter"
      and rest: "delimiter \<notin> set (drop (pointer (incPointer (incCol cur))) source)"
      by auto
    from True have "length source - pointer (incPointer (incCol cur)) < length source - pointer cur"
      by simp
    from less.hyps [OF this rest] True ne show ?thesis
      by (subst lexCharacterDelimitedLoop.simps) (simp add: Let_def)
  qed
qed

lemma matchOptions_at_quote:
  "matchOptions keywordList (toLowerByte (CHR 0x27)) (Suc 0) (enumerate 0 keywordList) [] [] =
     Inr ([0, 1, 2, 3, 4, 5, 6, 7, 8, 9], [])"
  "matchOptions keywordList (toLowerByte (CHR 0x22)) (Suc 0) (enumerate 0 keywordList) [] [] =
     Inr ([0, 1, 2, 3, 4, 5, 6, 7, 8, 9], [])"
  "matchOptions symbols (toLowerByte (CHR 0x27)) (Suc 0) (enumerate 0 symbols) [] [] =
     Inr ([0, 1, 2, 3, 4], [])"
  "matchOptions symbols (toLowerByte (CHR 0x22)) (Suc 0) (enumerate 0 symbols) [] [] =
     Inr ([0, 1, 2, 3, 4], [])"
  by code_simp+

lemma length_options: "length keywordList = 10" "length symbols = 5"
  by (simp_all add: keywordList_def symbols_def)

lemma longestMatch_at_quote:
  assumes "pointer cur < length source"
    and "source ! pointer cur = CHR 0x27 \<or> source ! pointer cur = CHR 0x22"
  shows "longestMatch source cur keywordList = Inr []"
    and "longestMatch source cur symbols = Inr []"
  using assms
  by (auto simp: longestMatch_def longestMatchLoop.simps [of source _ "pointer cur" "pointer cur"]
        matchOptions_at_quote length_options)

lemma tryLexers_at_unterminated:
  assumes inside: "pointer cur < length source"
    and quote: "delimiter = CHR 0x27 \<or> delimiter = CHR 0x22"
    and starts: "source ! pointer cur = delimiter"
    and unterminated: "delimiter \<notin> set (drop (pointer cur + 1) source)"
  shows "tryLexers lexers source cur = Inr None"
proof -
  from inside quote starts have k: "lexKeyword source cur = Inr (None, cur, False)"
    by (auto simp: lexKeyword_def longestMatch_at_quote)
  from inside quote starts have s: "lexSymbol source cur = Inr (None, cur, False)"
    by (auto simp: lexSymbol_def longestMatch_at_quote)
  from inside quote starts have n: "lexNumeric source cur = Inr (None, cur, False)"
    by (auto simp: lexNumeric_def lexNumericLoop.simps [of source cur cur] isDigit_def)
  from unterminated
  have loop: "lexCharacterDelimitedLoop source delimiter (incPointer (incCol cur)) [] = None"
    by (intro lexCharacterDelimitedLoop_unterminated) simp
  from inside starts loop
  have d: "lexCharacterDelimited source cur d' = Inr (None, cur, False)" for d'
    by (cases "d' = delimiter") (auto simp: lexCharacterDelimited_def)
  from inside quote starts d [of "CHR 0x22"]
  have i: "lexIdentifier source cur = Inr (None, cur, False)"
    by (auto simp: lexIdentifier_def isAlpha_def)
  from k s n d [of "CHR 0x27"] i show ?thesis
    by (simp add: lexers_def lexString_def)
qed

text \<open>
  \<^verbatim>\<open>longestMatch\<close> reads the source only through the lower-case form of each byte,
  so \<^verbatim>\<open>lexKeyword\<close> gives the same result on a source and on its case-folded form;
  and on each keyword of its list, in lower case, it yields that keyword and moves the
  cursor over it.
\<close>

lemma toLowerByte_folded:
  "toLowerByte (if CHR ''A'' \<le> c \<and> c \<le> CHR ''Z'' then char_of (of_char c + (32::nat)) else c) =
     toLowerByte c"
proof (cases "CHR ''A'' \<le> c \<and> c \<le> CHR ''Z''")
  case False
  then show ?thesis by auto
next
  case True
  then have "65 \<le> (of_char c :: nat)" and "(of_char c :: nat) \<le> 90"
    by (simp_all add: less_eq_char_def)
  with True show ?thesis
    by (simp add: toLowerByte_def Let_def of_char_of)
qed

lemma map_toLowerByte_toLowerASCII:
  "map toLowerByte (toLowerASCII s) = map toLowerByte s"
  by (simp add: toLowerASCII_def toLowerByte_folded)

lemma longestMatchLoop_folded:
  assumes "map toLowerByte s = map toLowerByte s'"
  shows "longestMatchLoop s options icp p val skipList match =
         longestMatchLoop s' options icp p val skipList match"
proof (induction "length s - p" arbitrary: p val skipList match rule: less_induct)
  case less
  from assms have len: "length s' = length s"
    by (metis length_map)
  show ?case
  proof (cases "p < length s")
    case False
    with len show ?thesis
      by (simp add: longestMatchLoop.simps [of s] longestMatchLoop.simps [of s'])
  next
    case True
    with len assms have byte: "toLowerByte (s' ! p) = toLowerByte (s ! p)"
      by (metis nth_map)
    from True have "length s - Suc p < length s - p"
      by simp
    note IH = less.hyps [OF this]
    from True len byte show ?thesis
      by (subst longestMatchLoop.simps [of s], subst longestMatchLoop.simps [of s'])
         (simp add: IH split: sum.splits prod.splits)
  qed
qed

lemma lexKeyword_folded: "lexKeyword s ic = lexKeyword (toLowerASCII s) ic"
proof -
  have "longestMatch s ic keywordList = longestMatch (toLowerASCII s) ic keywordList"
    unfolding longestMatch_def
    by (rule longestMatchLoop_folded) (simp add: map_toLowerByte_toLowerASCII)
  moreover have "length (toLowerASCII s) = length s"
    by (simp add: toLowerASCII_def)
  ultimately show ?thesis
    by (simp add: lexKeyword_def)
qed

lemma lexKeyword_keywordList:
  "\<forall>kw \<in> set keywordList.
     kw \<noteq> [] \<and>
     lexKeyword kw cursor0 =
       Inr (Some \<lparr>Value = kw, Kind = KeywordKind, Loc = \<lparr>Line = 0, Col = 0\<rparr>\<rparr>,
            \<lparr>pointer = length kw, loc = \<lparr>Line = 0, Col = length kw\<rparr>\<rparr>, True)"
  by code_simp

section \<open>The claims\<close>

text \<open>
  C1. The claim: a numeral candidate with two decimal points is rejected, and \<open>1.2.3\<close>
  never lexes as one Numeric token. The code does otherwise: the branch for a period
  tests \<^verbatim>\<open>periodFound\<close> (under the comment "period comes only one") and never sets
  it, so only a numeral that starts with a period, or a period after an exponent marker,
  is rejected. On \<open>1.2.3\<close> the numeric sub-lexer accepts all five bytes, and \<^verbatim>\<open>lex\<close>
  returns the single Numeric token \<open>1.2.3\<close>.
\<close>

theorem lexNumeric_second_period_accepted:
  "lexNumeric ''1.2.3'' cursor0 =
     Inr (Some \<lparr>Value = ''1.2.3'', Kind = NumericKind, Loc = \<lparr>Line = 0, Col = 0\<rparr>\<rparr>,
          \<lparr>pointer = 5, loc = \<lparr>Line = 0, Col = 5\<rparr>\<rparr>, True)
   \<and> lexSource ''1.2.3'' =
     Inr [\<lparr>Value = ''1.2.3'', Kind = NumericKind, Loc = \<lparr>Line = 0, Col = 0\<rparr>\<rparr>]"
  by code_simp

text \<open>
  C2. The claim: a doubled delimiter is collapsed to one delimiter in the token value,
  and \<open>'ab''c'\<close> lexes to one String token with value \<open>ab'c\<close>. The code does
  otherwise: at a doubled delimiter it appends the delimiter, steps over it, and then
  falls through to the append of the current byte, the delimiter again; and it returns
  the cursor on the closing delimiter, not after it. So \<^verbatim>\<open>lexString\<close> yields the value
  \<open>ab''c\<close> with the pointer at 6, the closing quote, and \<^verbatim>\<open>lex\<close> then takes that
  quote for the start of an unterminated literal and fails.
\<close>

theorem lexString_doubled_delimiter_kept:
  "lexString [CHR 0x27, CHR ''a'', CHR ''b'', CHR 0x27, CHR 0x27, CHR ''c'', CHR 0x27] cursor0 =
     Inr (Some \<lparr>Value = [CHR ''a'', CHR ''b'', CHR 0x27, CHR 0x27, CHR ''c''],
                Kind = StringKind, Loc = \<lparr>Line = 0, Col = 0\<rparr>\<rparr>,
          \<lparr>pointer = 6, loc = \<lparr>Line = 0, Col = 6\<rparr>\<rparr>, True)
   \<and> lexSource [CHR 0x27, CHR ''a'', CHR ''b'', CHR 0x27, CHR 0x27, CHR ''c'', CHR 0x27] =
     Inl (UnableToLex ('' after '' @ [CHR ''a'', CHR ''b'', CHR 0x27, CHR 0x27, CHR ''c'']) 0 6)"
  by code_simp

text \<open>
  C3. The claim: \<open>"My Table"\<close> lexes to one Identifier token with value \<open>my table\<close>.
  The code does otherwise: \<^verbatim>\<open>lexIdentifier\<close> returns the token of
  \<^verbatim>\<open>lexCharacterDelimited\<close> unchanged, of kind String and with its case kept, while
  its own path for a bare identifier sets the kind Identifier and folds the case. The
  cursor stays on the closing quote, so \<^verbatim>\<open>lex\<close> fails on the whole input.
\<close>

theorem lexIdentifier_quoted_is_String:
  "lexIdentifier ''\"My Table\"'' cursor0 =
     Inr (Some \<lparr>Value = ''My Table'', Kind = StringKind, Loc = \<lparr>Line = 0, Col = 0\<rparr>\<rparr>,
          \<lparr>pointer = 9, loc = \<lparr>Line = 0, Col = 9\<rparr>\<rparr>, True)
   \<and> lexSource ''\"My Table\"'' = Inl (UnableToLex '' after My Table'' 0 9)"
  by code_simp

text \<open>
  C4. The claim: \<open>as\<close> lexes to one Keyword token. The code does otherwise: the
  constant \<^verbatim>\<open>AsKeyword\<close> is declared with the other keywords, and the list built in
  \<^verbatim>\<open>lexKeyword\<close> leaves it out, so \<open>as\<close> falls through to \<^verbatim>\<open>lexIdentifier\<close>.
\<close>

theorem lex_as_is_Identifier:
  "AsKeyword \<notin> set keywordList
   \<and> lexKeyword ''as'' cursor0 = Inr (None, cursor0, False)
   \<and> lexSource ''as'' =
     Inr [\<lparr>Value = ''as'', Kind = IdentifierKind, Loc = \<lparr>Line = 0, Col = 0\<rparr>\<rparr>]"
  by code_simp

text \<open>
  C5. The claim: for every option list \<^verbatim>\<open>longestMatch\<close> returns the longest option
  that matches at the cursor, so \<open>into\<close> and not \<open>int\<close> when both are options. The
  code does otherwise: \<^verbatim>\<open>tooLong\<close> compares the length of the accumulated value with
  \<^verbatim>\<open>len(options)\<close>, the number of options, and drops every option still alive once
  the value is longer than that. With the two options \<open>int\<close> and \<open>into\<close> the third
  byte already drops \<open>into\<close>. With the ten keywords of \<^verbatim>\<open>lexKeyword\<close> (none longer
  than six bytes) the comparison never fires and \<open>into\<close> is found.
\<close>

theorem longestMatch_int_into:
  "longestMatch ''into'' cursor0 [''int'', ''into''] = Inr ''int''
   \<and> longestMatch ''into'' cursor0 keywordList = Inr ''into''"
  by code_simp

text \<open>
  C6. Keyword recognition is case-insensitive and comes before identifier recognition:
  every source that is one of the keywords of \<^verbatim>\<open>lexKeyword\<close> in any mix of upper and
  lower case (its case-folded form is the keyword) lexes to exactly one token, of kind
  Keyword, with the lower-case keyword as value, and to no Identifier token. So do
  \<open>select\<close>, \<open>Select\<close> and \<open>SELECT\<close>.
\<close>

theorem lex_keyword_any_case:
  assumes "kw \<in> set keywordList" and "toLowerASCII s = kw"
  shows "lexSource s = Inr [\<lparr>Value = kw, Kind = KeywordKind, Loc = \<lparr>Line = 0, Col = 0\<rparr>\<rparr>]"
proof -
  let ?tok = "\<lparr>Value = kw, Kind = KeywordKind, Loc = \<lparr>Line = 0, Col = 0\<rparr>\<rparr>"
  let ?cur = "\<lparr>pointer = length kw, loc = \<lparr>Line = 0, Col = length kw\<rparr>\<rparr>"
  from assms(2) have len: "length s = length kw"
    by (auto simp: toLowerASCII_def)
  from assms(1) lexKeyword_keywordList have "kw \<noteq> []"
    and "lexKeyword kw cursor0 = Inr (Some ?tok, ?cur, True)"
    by blast+
  with assms(2) have accepted: "lexKeyword s cursor0 = Inr (Some ?tok, ?cur, True)"
    by (simp add: lexKeyword_folded [of s])
  then have first: "tryLexers lexers s cursor0 = Inr (Some (Some ?tok, ?cur))"
    by (simp add: lexers_def)
  from len have rest: "lexLoop s ?cur [?tok] = Inr [?tok]"
    by (subst lexLoop.simps) simp
  from \<open>kw \<noteq> []\<close> len have "pointer cursor0 < length s"
    by (simp add: cursor0_def)
  with first rest show ?thesis
    unfolding lexSource_def by (subst lexLoop.simps) simp
qed

theorem lex_keyword_any_case_witness:
  "SelectKeyword \<in> set keywordList \<and> IntoKeyword \<in> set keywordList
   \<and> toLowerASCII ''select'' = SelectKeyword
   \<and> toLowerASCII ''Select'' = SelectKeyword
   \<and> toLowerASCII ''SELECT'' = SelectKeyword
   \<and> toLowerASCII ''InTo'' = IntoKeyword
   \<and> lexSource ''select'' =
     Inr [\<lparr>Value = ''select'', Kind = KeywordKind, Loc = \<lparr>Line = 0, Col = 0\<rparr>\<rparr>]
   \<and> lexSource ''Select'' =
     Inr [\<lparr>Value = ''select'', Kind = KeywordKind, Loc = \<lparr>Line = 0, Col = 0\<rparr>\<rparr>]
   \<and> lexSource ''SELECT'' =
     Inr [\<lparr>Value = ''select'', Kind = KeywordKind, Loc = \<lparr>Line = 0, Col = 0\<rparr>\<rparr>]
   \<and> lexSource ''InTo'' =
     Inr [\<lparr>Value = ''into'', Kind = KeywordKind, Loc = \<lparr>Line = 0, Col = 0\<rparr>\<rparr>]"
proof -
  have member: "SelectKeyword \<in> set keywordList" "IntoKeyword \<in> set keywordList"
    by (simp_all add: keywordList_def)
  have folded: "toLowerASCII ''select'' = SelectKeyword"
    "toLowerASCII ''Select'' = SelectKeyword"
    "toLowerASCII ''SELECT'' = SelectKeyword"
    "toLowerASCII ''InTo'' = IntoKeyword"
    by code_simp+
  from lex_keyword_any_case [OF member(1) folded(1)]
    lex_keyword_any_case [OF member(1) folded(2)]
    lex_keyword_any_case [OF member(1) folded(3)]
    lex_keyword_any_case [OF member(2) folded(4)]
    member folded
  show ?thesis
    by (simp add: SelectKeyword_def IntoKeyword_def)
qed

text \<open>
  C7. An unterminated delimited literal is never accepted. Whenever the loop of \<^verbatim>\<open>lex\<close>
  stands on a quote (single or double) that no later byte of the source matches, it
  returns the error, with the line and column of that position and, when a token has been
  produced, the text of the last one; the result is the error alone, no token sequence
  comes with it. In particular \<open>'abc\<close> gives the error at 0:0 with no hint, and
  \<open>select 'abc\<close> the error at 0:7 with the hint \<open>after select\<close>.
\<close>

theorem unterminated_literal_is_error:
  assumes "pointer cur < length source"
    and "delimiter = CHR 0x27 \<or> delimiter = CHR 0x22"
    and "source ! pointer cur = delimiter"
    and "delimiter \<notin> set (drop (pointer cur + 1) source)"
  shows "lexLoop source cur tokens =
           Inl (UnableToLex (if tokens = [] then [] else '' after '' @ Value (last tokens))
                  (Line (loc cur)) (Col (loc cur)))
         \<and> lexSource (CHR 0x27 # ''abc'') = Inl (UnableToLex [] 0 0)
         \<and> lexSource (''select '' @ CHR 0x27 # ''abc'') = Inl (UnableToLex '' after select'' 0 7)"
proof -
  from assms have "tryLexers lexers source cur = Inr None"
    by (rule tryLexers_at_unterminated)
  with assms(1) have "lexLoop source cur tokens =
           Inl (UnableToLex (if tokens = [] then [] else '' after '' @ Value (last tokens))
                  (Line (loc cur)) (Col (loc cur)))"
    by (subst lexLoop.simps) simp
  moreover have "lexSource (CHR 0x27 # ''abc'') = Inl (UnableToLex [] 0 0)"
    by code_simp
  moreover have "lexSource (''select '' @ CHR 0x27 # ''abc'') = Inl (UnableToLex '' after select'' 0 7)"
    by code_simp
  ultimately show ?thesis by simp
qed

theorem unterminated_literal_is_error_witness:
  "pointer cursor0 < length (CHR 0x27 # ''abc'')
   \<and> (CHR 0x27 # ''abc'') ! pointer cursor0 = CHR 0x27
   \<and> CHR 0x27 \<notin> set (drop (pointer cursor0 + 1) (CHR 0x27 # ''abc''))
   \<and> lexLoop (CHR 0x27 # ''abc'') cursor0 [] = Inl (UnableToLex [] 0 0)"
  using unterminated_literal_is_error [of cursor0 "CHR 0x27 # ''abc''" "CHR 0x27" "[]"]
  by (simp add: cursor0_def)

text \<open>
  C8. Every sub-lexer that reports no match (its boolean result is false) returns a nil
  token and the cursor it was given, whatever it had scanned before: every
  \<^verbatim>\<open>return\<close> with \<^verbatim>\<open>false\<close> in the source is \<^verbatim>\<open>return nil, ic, false\<close>.
\<close>

theorem sublexer_reject_keeps_cursor:
  assumes "l \<in> set lexers" and "l source ic = Inr (tok, cur, False)"
  shows "tok = None \<and> cur = ic"
proof -
  have k: "lexKeyword source ic = Inr (tok, cur, False) \<Longrightarrow> tok = None \<and> cur = ic"
    by (auto simp: lexKeyword_def split: sum.splits if_splits)
  have s: "lexSymbol source ic = Inr (tok, cur, False) \<Longrightarrow> tok = None \<and> cur = ic"
    by (auto simp: lexSymbol_def Let_def split: sum.splits if_splits)
  have n: "lexNumeric source ic = Inr (tok, cur, False) \<Longrightarrow> tok = None \<and> cur = ic"
    by (auto simp: lexNumeric_def split: option.splits if_splits)
  have d: "lexCharacterDelimited source ic delimiter = Inr (tok, cur, False)
             \<Longrightarrow> tok = None \<and> cur = ic" for delimiter
    by (auto simp: lexCharacterDelimited_def split: option.splits if_splits)
  have i: "lexIdentifier source ic = Inr (tok, cur, False) \<Longrightarrow> tok = None \<and> cur = ic"
    by (auto simp: lexIdentifier_def Let_def split: sum.splits prod.splits if_splits)
  from assms show ?thesis
    using k s n d i by (auto simp: lexers_def lexString_def)
qed

theorem sublexer_reject_keeps_cursor_witness:
  "lexNumeric \<in> set lexers \<and> lexString \<in> set lexers
   \<and> lexNumeric ''.1.2'' cursor0 = Inr (None, cursor0, False)
   \<and> lexNumeric ''1e2e3'' cursor0 = Inr (None, cursor0, False)
   \<and> lexNumeric ''1e'' cursor0 = Inr (None, cursor0, False)
   \<and> lexString (CHR 0x27 # ''abc'') cursor0 = Inr (None, cursor0, False)
   \<and> (\<exists>tok cur. lexNumeric ''1e2e3'' cursor0 = Inr (tok, cur, False)
                  \<and> tok = None \<and> cur = cursor0)"
proof -
  have member: "lexNumeric \<in> set lexers" "lexString \<in> set lexers"
    by (simp_all add: lexers_def)
  have point: "lexNumeric ''.1.2'' cursor0 = Inr (None, cursor0, False)"
    and exponent: "lexNumeric ''1e2e3'' cursor0 = Inr (None, cursor0, False)"
    and bare: "lexNumeric ''1e'' cursor0 = Inr (None, cursor0, False)"
    and unterminated: "lexString (CHR 0x27 # ''abc'') cursor0 = Inr (None, cursor0, False)"
    by code_simp+
  from sublexer_reject_keeps_cursor [OF member(1) exponent] member point exponent bare
    unterminated
  show ?thesis by simp
qed

text \<open>
  C9. For every source that lexes successfully the locations of the tokens, in output
  order, never go back: of two tokens the later one is on a line that is not smaller,
  and its column is not smaller unless its line is greater. It holds for any two tokens,
  so also for consecutive ones.
\<close>

theorem token_locations_monotone:
  assumes "lexSource source = Inr toks" and "i < j" and "j < length toks"
  shows "Line (Loc (toks ! i)) \<le> Line (Loc (toks ! j)) \<and>
         (Col (Loc (toks ! i)) \<le> Col (Loc (toks ! j)) \<or>
          Line (Loc (toks ! i)) < Line (Loc (toks ! j)))"
proof -
  from assms(1) have "sorted_wrt loc_le (map Loc toks)"
    unfolding lexSource_def by (rule lexLoop_sorted) simp_all
  with assms(2,3) have "loc_le (Loc (toks ! i)) (Loc (toks ! j))"
    by (simp add: sorted_wrt_iff_nth_less)
  then show ?thesis
    by (auto simp: loc_le_def)
qed

theorem token_locations_monotone_witness:
  "lexSource [CHR ''a'', CHR '' '', CHR ''b'', CHR 0x0A, CHR ''c''] =
     Inr [\<lparr>Value = ''a'', Kind = IdentifierKind, Loc = \<lparr>Line = 0, Col = 0\<rparr>\<rparr>,
          \<lparr>Value = ''b'', Kind = IdentifierKind, Loc = \<lparr>Line = 0, Col = 2\<rparr>\<rparr>,
          \<lparr>Value = ''c'', Kind = IdentifierKind, Loc = \<lparr>Line = 1, Col = 0\<rparr>\<rparr>]
   \<and> (1::nat) < 2 \<and> (2::nat) < 3
   \<and> Line \<lparr>Line = 0, Col = 2\<rparr> \<le> Line \<lparr>Line = 1, Col = 0\<rparr>
   \<and> (Col \<lparr>Line = 0, Col = 2\<rparr> \<le> Col \<lparr>Line = 1, Col = 0\<rparr>
        \<or> Line \<lparr>Line = 0, Col = 2\<rparr> < Line \<lparr>Line = 1, Col = 0\<rparr>)"
proof -
  have run: "lexSource [CHR ''a'', CHR '' '', CHR ''b'', CHR 0x0A, CHR ''c''] =
     Inr [\<lparr>Value = ''a'', Kind = IdentifierKind, Loc = \<lparr>Line = 0, Col = 0\<rparr>\<rparr>,
          \<lparr>Value = ''b'', Kind = IdentifierKind, Loc = \<lparr>Line = 0, Col = 2\<rparr>\<rparr>,
          \<lparr>Value = ''c'', Kind = IdentifierKind, Loc = \<lparr>Line = 1, Col = 0\<rparr>\<rparr>]"
    by code_simp
  from token_locations_monotone [OF run, of 1 2] run show ?thesis
    by simp
qed

text \<open>
  C10. Keyword recognition checks no word boundary: \<open>selected\<close> lexes to the Keyword
  \<open>select\<close> followed by the Identifier \<open>ed\<close>.
\<close>

theorem lex_selected_splits:
  "lexSource ''selected'' =
     Inr [\<lparr>Value = ''select'', Kind = KeywordKind, Loc = \<lparr>Line = 0, Col = 0\<rparr>\<rparr>,
          \<lparr>Value = ''ed'', Kind = IdentifierKind, Loc = \<lparr>Line = 0, Col = 6\<rparr>\<rparr>]"
  by code_simp


end
